theory Spec2Isabelle
  imports Complex_Main "HOL-Library.AList"
begin

section \<open>Normalized superposed epoch analysis: the function \<open>sean\<close> of sea_norm.py\<close>

text \<open>
  The development embeds \<^verbatim>\<open>sean\<close> (src/sea_norm/sea_norm.py) as a HOL function.

  Conventions of the embedding:
  \<^item> a timestamp is an \<open>int\<close> (nanoseconds since the epoch, as pandas stores it);
  \<^item> a float64 is a value of \<open>fl\<close>: an exact rational, an infinity or NaN. Rounding is
    not represented: arithmetic on finite values is exact;
  \<^item> a DataFrame is stored by column: the index and an association list from column
    name to values. Column names are taken to be distinct, every column as long as the
    index, and the input has no column called \<^verbatim>\<open>t_norm\<close> of its own;
  \<^item> label slicing \<^verbatim>\<open>.loc[a:b]\<close> is the one of a monotonically increasing index
    (two binary searches); the theorems that depend on it assume a sorted index;
  \<^item> \<open>x_dimensions\<close> holds two Python integers, \<open>events\<close> three lists of timestamps,
    \<open>y_dimensions\<close> three numbers, \<open>y_col\<close> a column name;
  \<^item> every \<^verbatim>\<open>raise\<close> of the code and of the library calls it makes is a value
    \<open>Inl e\<close>; the \<^verbatim>\<open>print\<close> of the event loop is a list of lines;
  \<^item> the reducers of numpy and the named reducers of scipy other than \<^verbatim>\<open>count\<close> are
    parameters (a record \<open>numpy\<close>): no theorem depends on what they compute. A callable
    reducer is a total function.
\<close>

subsection \<open>Values and errors\<close>

datatype fl = Fin rat | PInf | NInf | NaN

datatype error =
    ZeroDivisionError
  | KeyError
  | IndexError
  | NoObjectsToConcatenate
  | GridError
  | InvalidStatistic


text \<open>Division of two finite floats, as numpy does it under \<^verbatim>\<open>errstate(all="ignore")\<close>.\<close>

definition np_div :: "rat \<Rightarrow> rat \<Rightarrow> fl" where
  "np_div a b =
     (if b = 0 then (if a = 0 then NaN else if 0 < a then PInf else NInf)
      else Fin (a / b))"

text \<open>\<^verbatim>\<open>Timedelta.total_seconds()\<close> of a difference of timestamps.\<close>

definition total_seconds :: "int \<Rightarrow> rat" where
  "total_seconds d = of_int d / 1000000000"

subsection \<open>Data frames\<close>

record frame =
  index :: "int list"
  columns :: "(string \<times> fl list) list"

datatype data_arg = DataFrame frame | Series "(int \<times> fl) list"

text \<open>\<^verbatim>\<open>data.to_frame("data")\<close>\<close>

definition to_frame :: "(int \<times> fl) list \<Rightarrow> frame" where
  "to_frame s = \<lparr>index = map fst s, columns = [(''data'', map snd s)]\<rparr>"

text \<open>\<^verbatim>\<open>df.empty\<close>: an axis of length 0.\<close>

definition df_empty :: "frame \<Rightarrow> bool" where
  "df_empty f = (index f = [] \<or> columns f = [])"

text \<open>\<^verbatim>\<open>df[name]\<close>, a KeyError when the column is missing.\<close>

definition getitem :: "frame \<Rightarrow> string \<Rightarrow> error + fl list" where
  "getitem f name = (case map_of (columns f) name of None \<Rightarrow> Inl KeyError | Some v \<Rightarrow> Inr v)"

text \<open>\<^verbatim>\<open>[df[x] for x in names]\<close>\<close>

fun getitems :: "frame \<Rightarrow> string list \<Rightarrow> error + fl list list" where
  "getitems f [] = Inr []"
| "getitems f (n # ns) =
     (case getitem f n of
        Inl e \<Rightarrow> Inl e
      | Inr v \<Rightarrow> (case getitems f ns of Inl e \<Rightarrow> Inl e | Inr vs \<Rightarrow> Inr (v # vs)))"

text \<open>\<^verbatim>\<open>df[names].copy()\<close> with a list of names.\<close>

definition getitem_list :: "frame \<Rightarrow> string list \<Rightarrow> error + frame" where
  "getitem_list f names =
     (case getitems f names of
        Inl e \<Rightarrow> Inl e
      | Inr vs \<Rightarrow> Inr \<lparr>index = index f, columns = zip names vs\<rparr>)"

text \<open>\<^verbatim>\<open>df.assign(name=values)\<close>: an existing column is replaced where it stands, a new
  one comes last.\<close>

definition assign :: "string \<Rightarrow> fl list \<Rightarrow> frame \<Rightarrow> frame" where
  "assign name vals f = f\<lparr>columns := AList.update name vals (columns f)\<rparr>"

text \<open>Positional slice \<^verbatim>\<open>df.iloc[i:j]\<close>.\<close>

definition iloc_slice :: "nat \<Rightarrow> nat \<Rightarrow> frame \<Rightarrow> frame" where
  "iloc_slice i j f =
     \<lparr>index = take (j - i) (drop i (index f)),
      columns = map (\<lambda>(n, vs). (n, take (j - i) (drop i vs))) (columns f)\<rparr>"

definition bisect_left :: "int list \<Rightarrow> int \<Rightarrow> nat" where
  "bisect_left ts x = length (takeWhile (\<lambda>t. t < x) ts)"

definition bisect_right :: "int list \<Rightarrow> int \<Rightarrow> nat" where
  "bisect_right ts x = length (takeWhile (\<lambda>t. t \<le> x) ts)"

text \<open>Label slice \<^verbatim>\<open>df.loc[a:b]\<close> on a monotonically increasing index: from the first
  position whose label is not below \<open>a\<close> up to the last whose label is not above \<open>b\<close>.\<close>

definition loc_slice :: "frame \<Rightarrow> int \<Rightarrow> int \<Rightarrow> frame" where
  "loc_slice f a b = iloc_slice (bisect_left (index f) a) (bisect_right (index f) b) f"

text \<open>\<^verbatim>\<open>pd.concat(frames)\<close> of frames that have the columns of the first one.\<close>

definition column_of :: "string \<Rightarrow> frame \<Rightarrow> fl list" where
  "column_of n f = (case map_of (columns f) n of None \<Rightarrow> [] | Some v \<Rightarrow> v)"

fun pd_concat :: "frame list \<Rightarrow> error + frame" where
  "pd_concat [] = Inl NoObjectsToConcatenate"
| "pd_concat (f # fs) =
     Inr \<lparr>index = concat (map index (f # fs)),
          columns = map (\<lambda>(n, _). (n, concat (map (column_of n) (f # fs)))) (columns f)\<rparr>"

subsection \<open>Arguments and results\<close>

datatype cols_arg = ColsFalse | ColsStr string | ColsList "string list"

datatype statistic = Named string | Callable "fl list \<Rightarrow> fl"

datatype seastats_arg =
    StatsFalse
  | StatsDict "(string \<times> statistic) list"
  | StatsSeq "statistic list"

record numpy =
  nanmean :: "fl list \<Rightarrow> fl"
  nanmedian :: "fl list \<Rightarrow> fl"
  nanpercentile :: "fl list \<Rightarrow> nat \<Rightarrow> fl"
  scipy_named :: "string \<Rightarrow> fl list \<Rightarrow> fl"

record y_info =
  y_min :: rat
  y_max :: rat
  y_bin :: rat
  y_edges :: "rat list"

record metadata =
  sea_cols :: "string list"
  stats :: "(string \<times> statistic) list"
  y_meta :: "y_info option"

record table =
  t_index :: "fl list"
  t_columns :: "(string \<times> fl list) list"

record sea_result =
  SEAdat :: table
  meta :: metadata
  pooled :: "(frame \<times> frame) option"
  printed :: "string list"

text \<open>Truth values of the optional arguments.\<close>

definition truthy_cols :: "cols_arg \<Rightarrow> bool" where
  "truthy_cols c = (case c of ColsFalse \<Rightarrow> False | ColsStr s \<Rightarrow> s \<noteq> [] | ColsList l \<Rightarrow> l \<noteq> [])"

definition truthy_y_col :: "string option \<Rightarrow> bool" where
  "truthy_y_col y = (case y of None \<Rightarrow> False | Some s \<Rightarrow> s \<noteq> [])"

text \<open>Iterating over \<^verbatim>\<open>cols\<close>: a string yields its characters.\<close>

definition cols_items :: "cols_arg \<Rightarrow> string list" where
  "cols_items c = (case c of ColsFalse \<Rightarrow> [] | ColsStr s \<Rightarrow> map (\<lambda>ch. [ch]) s | ColsList l \<Rightarrow> l)"

subsection \<open>Lines 146--170: the data to analyse\<close>

definition select_data ::
  "data_arg \<Rightarrow> cols_arg \<Rightarrow> string option \<Rightarrow> (rat \<times> rat \<times> rat) option
    \<Rightarrow> error + (frame \<times> cols_arg \<times> string option)" where
  "select_data data cols y_col y_dimensions =
     (case data of
        Series s \<Rightarrow> Inr (to_frame s, ColsStr ''data'', y_col)
      | DataFrame df \<Rightarrow>
          if truthy_cols cols then
            (let col_dat = cols_items cols @
                   (case y_col of
                      Some y \<Rightarrow> if truthy_y_col y_col \<and> y_dimensions \<noteq> None then [y] else []
                    | None \<Rightarrow> [])
             in case getitem_list df col_dat of
                  Inl e \<Rightarrow> Inl e
                | Inr se_data \<Rightarrow> Inr (se_data, cols, y_col))
          else Inr (df, ColsList (map fst (columns df)), None))"

subsection \<open>Lines 176--188: the statistics\<close>

definition default_stats :: "numpy \<Rightarrow> (string \<times> statistic) list" where
  "default_stats L =
     [(''mean'', Callable (nanmean L)),
      (''median'', Callable (nanmedian L)),
      (''lowq'', Callable (\<lambda>stat. nanpercentile L stat 25)),
      (''upq'', Callable (\<lambda>stat. nanpercentile L stat 75)),
      (''cnt'', Named ''count'')]"

definition resolve_stats :: "numpy \<Rightarrow> seastats_arg \<Rightarrow> (string \<times> statistic) list" where
  "resolve_stats L seastats =
     (case seastats of
        StatsDict d \<Rightarrow> if d \<noteq> [] then d else default_stats L
      | _ \<Rightarrow> default_stats L)"

subsection \<open>Lines 193--231: the event loop\<close>

fun show_nat :: "nat \<Rightarrow> string" where
  "show_nat n =
     (if n < 10 then [''0123456789'' ! n]
      else show_nat (n div 10) @ [''0123456789'' ! (n mod 10)])"

declare show_nat.simps [simp del]

definition no_data_message :: "nat \<Rightarrow> string" where
  "no_data_message event = ''There is no data for event '' @ show_nat event"

text \<open>Lines 224--230. The phase is not empty when this runs.\<close>

definition normalize_phase :: "frame \<Rightarrow> frame" where
  "normalize_phase phase =
     (let t_norm = map (\<lambda>t. total_seconds (t - hd (index phase))) (index phase);
          p_min = hd t_norm;
          p_max = last t_norm
      in assign ''t_norm'' (map (\<lambda>s. np_div (s - p_min) (p_max - p_min)) t_norm) phase)"

fun event_loop ::
  "frame \<Rightarrow> int list \<Rightarrow> int list \<Rightarrow> int list \<Rightarrow> nat list
    \<Rightarrow> frame list \<times> frame list \<times> string list
    \<Rightarrow> error + (frame list \<times> frame list \<times> string list)" where
  "event_loop se_data starts epochs ends [] acc = Inr acc"
| "event_loop se_data starts epochs ends (event # rest) (phase1_dfs, phase2_dfs, out) =
     (if length epochs \<le> event \<or> length ends \<le> event then Inl IndexError
      else
        let start = starts ! event;
            epoch = epochs ! event;
            end = ends ! event;
            phase1 = loc_slice se_data start epoch;
            phase2 = loc_slice se_data epoch end
        in if df_empty phase1 \<or> df_empty phase2
           then event_loop se_data starts epochs ends rest
                  (phase1_dfs, phase2_dfs, out @ [no_data_message event])
           else event_loop se_data starts epochs ends rest
                  (phase1_dfs @ [normalize_phase phase1],
                   phase2_dfs @ [normalize_phase phase2], out))"

definition run_events ::
  "frame \<Rightarrow> int list \<times> int list \<times> int list
    \<Rightarrow> error + (frame list \<times> frame list \<times> string list)" where
  "run_events se_data events =
     (case events of (starts, epochs, ends) \<Rightarrow>
        event_loop se_data starts epochs ends [0..<length starts] ([], [], []))"

subsection \<open>Lines 242--263: the bin grid and the time axis\<close>

text \<open>\<^verbatim>\<open>np.linspace(0, 1, num)\<close>\<close>

definition linspace01 :: "int \<Rightarrow> error + rat list" where
  "linspace01 num =
     (if num < 0 then Inl GridError
      else if num = 1 then Inr [0]
      else Inr (map (\<lambda>i. of_nat i / of_int (num - 1)) [0..<nat num]))"

text \<open>\<^verbatim>\<open>np.arange(start, stop, step)\<close>\<close>

definition arange :: "rat \<Rightarrow> rat \<Rightarrow> rat \<Rightarrow> error + rat list" where
  "arange start stop step =
     (if step = 0 then Inl GridError
      else Inr (map (\<lambda>i. start + of_nat i * step) [0..<nat \<lceil>(stop - start) / step\<rceil>]))"

text \<open>\<^verbatim>\<open>a.max()\<close>, a ValueError on an empty array.\<close>

definition np_max :: "rat list \<Rightarrow> error + rat" where
  "np_max xs = (case xs of [] \<Rightarrow> Inl GridError | x # ys \<Rightarrow> Inr (fold max ys x))"

text \<open>Lines 261--263.\<close>

definition time_axis :: "rat \<Rightarrow> rat \<Rightarrow> rat list \<Rightarrow> rat list \<Rightarrow> error + rat list" where
  "time_axis x1_spacing x2_spacing x1bins x2bins =
     (case np_max x1bins of
        Inl e \<Rightarrow> Inl e
      | Inr m \<Rightarrow>
          Inr (map (\<lambda>b. (b - m - x1_spacing) / x1_spacing) x1bins @
               map (\<lambda>b. b / x2_spacing) x2bins))"

subsection \<open>The binned statistics of scipy\<close>

text \<open>
  \<^verbatim>\<open>np.digitize(x, edges)\<close> for increasing edges: the number of edges not above \<open>x\<close>; NaN
  sorts after every edge. scipy then moves a sample that sits on the last edge into the
  last bin. Bin \<open>0\<close> and bin \<open>length edges\<close> hold the outliers; bins \<open>1\<close> to
  \<open>length edges - 1\<close> are the bins of the result.
\<close>

definition digitize :: "rat list \<Rightarrow> fl \<Rightarrow> nat" where
  "digitize edges x =
     (case x of
        Fin q \<Rightarrow> length (takeWhile (\<lambda>e. e \<le> q) edges)
      | PInf \<Rightarrow> length edges
      | NInf \<Rightarrow> 0
      | NaN \<Rightarrow> length edges)"

definition bin_number :: "rat list \<Rightarrow> fl \<Rightarrow> nat" where
  "bin_number edges x =
     (if edges \<noteq> [] \<and> x = Fin (last edges) then digitize edges x - 1 else digitize edges x)"

definition known_stats :: "string list" where
  "known_stats = [''mean'', ''median'', ''count'', ''sum'', ''std'', ''min'', ''max'']"

definition valid_statistic :: "statistic \<Rightarrow> bool" where
  "valid_statistic s = (case s of Callable _ \<Rightarrow> True | Named n \<Rightarrow> n \<in> set known_stats)"

definition apply_statistic :: "numpy \<Rightarrow> statistic \<Rightarrow> fl list \<Rightarrow> fl" where
  "apply_statistic L s vs =
     (case s of
        Callable f \<Rightarrow> f vs
      | Named n \<Rightarrow> if n = ''count'' then Fin (of_nat (length vs)) else scipy_named L n vs)"

text \<open>scipy takes the logarithm of the narrowest bin: the edges must increase strictly,
  and there must be two of them.\<close>

definition valid_edges :: "rat list \<Rightarrow> bool" where
  "valid_edges edges = (2 \<le> length edges \<and> sorted_wrt (<) edges)"

text \<open>The values of one column whose sample falls in bin \<open>k\<close>.\<close>

definition binned_values :: "rat list \<Rightarrow> fl list \<Rightarrow> fl list \<Rightarrow> nat \<Rightarrow> fl list" where
  "binned_values edges xs vs k =
     map snd (filter (\<lambda>(x, v). bin_number edges x = k) (zip xs vs))"

text \<open>\<^verbatim>\<open>stats.binned_statistic(x, values=..., bins=edges, statistic=s)\<close>: one row per
  column of values, one entry per bin.\<close>

definition binned_statistic ::
  "numpy \<Rightarrow> fl list \<Rightarrow> fl list list \<Rightarrow> rat list \<Rightarrow> statistic \<Rightarrow> error + fl list list" where
  "binned_statistic L xs values edges s =
     (if \<not> valid_statistic s then Inl InvalidStatistic
      else if \<not> valid_edges edges then Inl GridError
      else Inr (map (\<lambda>vs. map (\<lambda>k. apply_statistic L s (binned_values edges xs vs k))
                               [1..<length edges]) values))"

definition binned_values_2d ::
  "rat list \<Rightarrow> rat list \<Rightarrow> fl list \<Rightarrow> fl list \<Rightarrow> fl list \<Rightarrow> nat \<Rightarrow> nat \<Rightarrow> fl list" where
  "binned_values_2d xedges yedges xs ys vs a b =
     map (\<lambda>(x, y, v). v)
       (filter (\<lambda>(x, y, v). bin_number xedges x = a \<and> bin_number yedges y = b)
          (zip xs (zip ys vs)))"

text \<open>\<^verbatim>\<open>stats.binned_statistic_2d(x, y, values=..., bins=[xedges, yedges], statistic=s)\<close>:
  indexed by column, bin of \<open>x\<close>, bin of \<open>y\<close>.\<close>

definition binned_statistic_2d ::
  "numpy \<Rightarrow> fl list \<Rightarrow> fl list \<Rightarrow> fl list list \<Rightarrow> rat list \<Rightarrow> rat list \<Rightarrow> statistic
    \<Rightarrow> error + fl list list list" where
  "binned_statistic_2d L xs ys values xedges yedges s =
     (if \<not> valid_statistic s then Inl InvalidStatistic
      else if \<not> valid_edges xedges \<or> \<not> valid_edges yedges then Inl GridError
      else Inr (map (\<lambda>vs.
                  map (\<lambda>a.
                    map (\<lambda>b. apply_statistic L s (binned_values_2d xedges yedges xs ys vs a b))
                      [1..<length yedges])
                    [1..<length xedges]) values))"

subsection \<open>Lines 279--322: the columns of the result\<close>

text \<open>\<^verbatim>\<open>f"{j:03d}"\<close>\<close>

definition pad3 :: "nat \<Rightarrow> string" where
  "pad3 j = replicate (3 - length (show_nat j)) (CHR ''0'') @ show_nat j"

text \<open>Lines 307--322: the assignments one statistic makes in a 1D analysis, in order.\<close>

definition stat_columns_1d ::
  "numpy \<Rightarrow> frame \<Rightarrow> frame \<Rightarrow> fl list list \<Rightarrow> fl list list \<Rightarrow> rat list \<Rightarrow> rat list
    \<Rightarrow> string list \<Rightarrow> string \<Rightarrow> statistic \<Rightarrow> error + (string \<times> fl list) list" where
  "stat_columns_1d L p1data p2data ph1list ph2list x1_edges x2_edges cols s_name s_fun =
     (case binned_statistic L (column_of ''t_norm'' p1data) ph1list x1_edges s_fun of
        Inl e \<Rightarrow> Inl e
      | Inr p1stat \<Rightarrow>
          (case binned_statistic L (column_of ''t_norm'' p2data) ph2list x2_edges s_fun of
             Inl e \<Rightarrow> Inl e
           | Inr p2stat \<Rightarrow>
               Inr (map (\<lambda>(p1_col, p2_col, c). (c @ ''_'' @ s_name, p1_col @ p2_col))
                      (zip p1stat (zip p2stat cols)))))"

text \<open>Lines 282--303: the assignments one statistic makes in a 2D analysis, in order.
  The columns \<^verbatim>\<open>t_norm\<close> and \<open>y_col\<close> of the pooled frames exist whenever this runs:
  line 155 put \<open>y_col\<close> among the selected columns.\<close>

definition stat_columns_2d ::
  "numpy \<Rightarrow> frame \<Rightarrow> frame \<Rightarrow> string \<Rightarrow> fl list list \<Rightarrow> fl list list
    \<Rightarrow> rat list \<Rightarrow> rat list \<Rightarrow> rat list
    \<Rightarrow> string list \<Rightarrow> string \<Rightarrow> statistic \<Rightarrow> error + (string \<times> fl list) list" where
  "stat_columns_2d L p1data p2data y_col ph1list ph2list x1_edges x2_edges yedges cols s_name s_fun =
     (case binned_statistic_2d L (column_of ''t_norm'' p1data) (column_of y_col p1data)
             ph1list x1_edges yedges s_fun of
        Inl e \<Rightarrow> Inl e
      | Inr p1stat \<Rightarrow>
          (case binned_statistic_2d L (column_of ''t_norm'' p2data) (column_of y_col p2data)
                  ph2list x2_edges yedges s_fun of
             Inl e \<Rightarrow> Inl e
           | Inr p2stat \<Rightarrow>
               Inr (concat (map (\<lambda>i.
                      map (\<lambda>j. (cols ! i @ ''_'' @ s_name @ ''_'' @ pad3 j,
                                map (\<lambda>row. row ! j) (p1stat ! i) @
                                map (\<lambda>row. row ! j) (p2stat ! i)))
                        [0..<length yedges - 1])
                      [0..<length p1stat]))))"

text \<open>Line 279: the loop over the statistics. \<open>one_stat\<close> is the body for the mode of the
  call; each assignment \<^verbatim>\<open>SEAdat[name] = values\<close> replaces a column of that name or adds
  one.\<close>

fun stats_loop ::
  "(string \<Rightarrow> statistic \<Rightarrow> error + (string \<times> fl list) list)
    \<Rightarrow> (string \<times> statistic) list \<Rightarrow> (string \<times> fl list) list
    \<Rightarrow> error + (string \<times> fl list) list" where
  "stats_loop one_stat [] tbl = Inr tbl"
| "stats_loop one_stat ((s_name, s_fun) # rest) tbl =
     (case one_stat s_name s_fun of
        Inl e \<Rightarrow> Inl e
      | Inr assignments \<Rightarrow>
          stats_loop one_stat rest (fold (\<lambda>(n, v). AList.update n v) assignments tbl))"

text \<open>Line 325: \<^verbatim>\<open>SEAdat.set_index("t_norm")\<close>\<close>

definition set_index :: "string \<Rightarrow> (string \<times> fl list) list \<Rightarrow> table" where
  "set_index name tbl =
     \<lparr>t_index = (case map_of tbl name of None \<Rightarrow> [] | Some v \<Rightarrow> v),
      t_columns = AList.delete name tbl\<rparr>"

subsection \<open>The function\<close>

text \<open>Lines 242--263: the edges of both phases, the second dimension of a 2D analysis
  (its column and its grid) and the time axis.\<close>

definition y_grid ::
  "string option \<Rightarrow> (rat \<times> rat \<times> rat) option \<Rightarrow> error + (string \<times> y_info) option" where
  "y_grid y_col y_dimensions =
     (case (y_col, y_dimensions) of
        (Some y, Some (ymin, ymax, y_spacing)) \<Rightarrow>
          if truthy_y_col y_col then
            (case arange ymin (ymax + y_spacing) y_spacing of
               Inl e \<Rightarrow> Inl e
             | Inr edges \<Rightarrow>
                 Inr (Some (y, \<lparr>y_min = ymin, y_max = ymax, y_bin = y_spacing,
                                 y_edges = edges\<rparr>)))
          else Inr None
      | _ \<Rightarrow> Inr None)"

definition bin_grid ::
  "int \<times> int \<Rightarrow> string option \<Rightarrow> (rat \<times> rat \<times> rat) option
    \<Rightarrow> error + (rat list \<times> rat list \<times> (string \<times> y_info) option \<times> rat list)" where
  "bin_grid x_dimensions y_col y_dimensions =
     (case linspace01 (fst x_dimensions) of
        Inl e \<Rightarrow> Inl e
      | Inr x1_edges \<Rightarrow>
     (case linspace01 (snd x_dimensions) of
        Inl e \<Rightarrow> Inl e
      | Inr x2_edges \<Rightarrow>
     (case y_grid y_col y_dimensions of
        Inl e \<Rightarrow> Inl e
      | Inr sea2d \<Rightarrow>
     (case time_axis (1 / of_int (fst x_dimensions)) (1 / of_int (snd x_dimensions))
             (butlast x1_edges) (butlast x2_edges) of
        Inl e \<Rightarrow> Inl e
      | Inr t_norm \<Rightarrow> Inr (x1_edges, x2_edges, sea2d, t_norm)))))"

text \<open>Lines 266--322: the table before its index is set.\<close>

definition fill_table ::
  "numpy \<Rightarrow> frame \<Rightarrow> frame \<Rightarrow> string list \<Rightarrow> (string \<times> statistic) list
    \<Rightarrow> rat list \<Rightarrow> rat list \<Rightarrow> (string \<times> y_info) option \<Rightarrow> rat list
    \<Rightarrow> error + (string \<times> fl list) list" where
  "fill_table L p1data p2data cols stat_vals x1_edges x2_edges sea2d t_norm =
     (case getitems p1data cols of
        Inl e \<Rightarrow> Inl e
      | Inr ph1list \<Rightarrow>
     (case getitems p2data cols of
        Inl e \<Rightarrow> Inl e
      | Inr ph2list \<Rightarrow>
          stats_loop
            (case sea2d of
               Some (y, yi) \<Rightarrow>
                 stat_columns_2d L p1data p2data y ph1list ph2list x1_edges x2_edges
                   (y_edges yi) cols
             | None \<Rightarrow>
                 stat_columns_1d L p1data p2data ph1list ph2list x1_edges x2_edges cols)
            stat_vals [(''t_norm'', map Fin t_norm)]))"

text \<open>Lines 233--340, after the event loop.\<close>

definition assemble ::
  "numpy \<Rightarrow> int \<times> int \<Rightarrow> cols_arg \<Rightarrow> (string \<times> statistic) list \<Rightarrow> string option
    \<Rightarrow> (rat \<times> rat \<times> rat) option \<Rightarrow> bool
    \<Rightarrow> frame list \<Rightarrow> frame list \<Rightarrow> string list \<Rightarrow> error + sea_result" where
  "assemble L x_dimensions cols stat_vals y_col y_dimensions return_data
     phase1_dfs phase2_dfs out =
     (case pd_concat phase1_dfs of
        Inl e \<Rightarrow> Inl e
      | Inr p1data \<Rightarrow>
     (case pd_concat phase2_dfs of
        Inl e \<Rightarrow> Inl e
      | Inr p2data \<Rightarrow>
     (case bin_grid x_dimensions y_col y_dimensions of
        Inl e \<Rightarrow> Inl e
      | Inr (x1_edges, x2_edges, sea2d, t_norm) \<Rightarrow>
     (case fill_table L p1data p2data (cols_items cols) stat_vals x1_edges x2_edges
             sea2d t_norm of
        Inl e \<Rightarrow> Inl e
      | Inr tbl \<Rightarrow>
          Inr \<lparr>SEAdat = set_index ''t_norm'' tbl,
               meta = \<lparr>sea_cols = (case cols of ColsStr s \<Rightarrow> [s] | _ \<Rightarrow> cols_items cols),
                       stats = stat_vals,
                       y_meta = map_option snd sea2d\<rparr>,
               pooled = (if return_data then Some (p1data, p2data) else None),
               printed = out\<rparr>))))"

definition sean ::
  "numpy \<Rightarrow> data_arg \<Rightarrow> int list \<times> int list \<times> int list \<Rightarrow> int \<times> int \<Rightarrow> cols_arg
    \<Rightarrow> seastats_arg \<Rightarrow> string option \<Rightarrow> (rat \<times> rat \<times> rat) option \<Rightarrow> bool
    \<Rightarrow> error + sea_result" where
  "sean L data events x_dimensions cols seastats y_col y_dimensions return_data =
     (if fst x_dimensions = 0 \<or> snd x_dimensions = 0 then Inl ZeroDivisionError
      else
        (case select_data data cols y_col y_dimensions of
           Inl e \<Rightarrow> Inl e
         | Inr (se_data, cols', y_col') \<Rightarrow>
            (case run_events se_data events of
               Inl e \<Rightarrow> Inl e
             | Inr (phase1_dfs, phase2_dfs, out) \<Rightarrow>
                 assemble L x_dimensions cols' (resolve_stats L seastats) y_col' y_dimensions
                   return_data phase1_dfs phase2_dfs out)))"

section \<open>Notions the properties are stated with\<close>

text \<open>The timestamps of the rows that \<^verbatim>\<open>.loc[a:b]\<close> selects.\<close>

definition window :: "int list \<Rightarrow> int \<Rightarrow> int \<Rightarrow> int list" where
  "window ts a b = take (bisect_right ts b - bisect_left ts a) (drop (bisect_left ts a) ts)"

text \<open>The time index of the input.\<close>

definition data_index :: "data_arg \<Rightarrow> int list" where
  "data_index data = (case data of DataFrame df \<Rightarrow> index df | Series s \<Rightarrow> map fst s)"

text \<open>The test of lines 211--219 for event \<open>i\<close>.\<close>

definition event_skipped :: "frame \<Rightarrow> int list \<Rightarrow> int list \<Rightarrow> int list \<Rightarrow> nat \<Rightarrow> bool" where
  "event_skipped se_data starts epochs ends i =
     (df_empty (loc_slice se_data (starts ! i) (epochs ! i)) \<or>
      df_empty (loc_slice se_data (epochs ! i) (ends ! i)))"

text \<open>The events that reach line 222, in order.\<close>

definition survivors :: "frame \<Rightarrow> int list \<Rightarrow> int list \<Rightarrow> int list \<Rightarrow> nat list" where
  "survivors se_data starts epochs ends =
     filter (\<lambda>k. \<not> event_skipped se_data starts epochs ends k) [0..<length starts]"


text \<open>Elapsed seconds of the rows of a phase since its first row (lines 224--225).\<close>

definition elapsed :: "frame \<Rightarrow> rat list" where
  "elapsed phase = map (\<lambda>t. total_seconds (t - hd (index phase))) (index phase)"

subsection \<open>An instance of the numpy reducers, to run examples\<close>

text \<open>The reducers over the finite entries, in exact arithmetic, with the linear
  interpolation of \<^verbatim>\<open>np.nanpercentile\<close>. The examples use no named reducer of scipy but
  \<^verbatim>\<open>count\<close>, which \<open>apply_statistic\<close> computes itself.\<close>

definition finite_values :: "fl list \<Rightarrow> rat list" where
  "finite_values vs = concat (map (\<lambda>v. case v of Fin q \<Rightarrow> [q] | _ \<Rightarrow> []) vs)"

definition mean_of :: "rat list \<Rightarrow> fl" where
  "mean_of qs = (if qs = [] then NaN else Fin (sum_list qs / of_nat (length qs)))"

definition mean_exact :: "fl list \<Rightarrow> fl" where
  "mean_exact vs = mean_of (finite_values vs)"

definition lerp_at :: "rat list \<Rightarrow> rat \<Rightarrow> nat \<Rightarrow> fl" where
  "lerp_at qs pos lo =
     Fin (qs ! lo + (qs ! min (lo + 1) (length qs - 1) - qs ! lo) * (pos - of_nat lo))"

definition percentile_sorted :: "rat list \<Rightarrow> nat \<Rightarrow> fl" where
  "percentile_sorted qs p =
     (if qs = [] then NaN
      else lerp_at qs (of_nat p / 100 * of_nat (length qs - 1))
             (nat \<lfloor>of_nat p / 100 * (of_nat (length qs - 1) :: rat)\<rfloor>))"

definition percentile_exact :: "fl list \<Rightarrow> nat \<Rightarrow> fl" where
  "percentile_exact vs p = percentile_sorted (sort (finite_values vs)) p"

definition np_exact :: numpy where
  "np_exact =
     \<lparr>nanmean = mean_exact,
      nanmedian = (\<lambda>vs. percentile_exact vs 50),
      nanpercentile = percentile_exact,
      scipy_named = (\<lambda>n vs. NaN)\<rparr>"

subsection \<open>Example inputs\<close>

text \<open>Five rows ten nanoseconds apart, a data column \<open>v\<close> and a second dimension \<open>y\<close>.\<close>

definition example_frame :: frame where
  "example_frame =
     \<lparr>index = [0, 10, 20, 30, 40],
      columns = [(''v'', [Fin 1, Fin 2, Fin 3, Fin 4, Fin 5]),
                 (''y'', [Fin 1, Fin 6, Fin 2, Fin 7, Fin 3])]\<rparr>"


text \<open>Three rows and one column: one event with two rows in each phase.\<close>

definition tiny_frame :: frame where
  "tiny_frame = \<lparr>index = [0, 10, 20], columns = [(''v'', [Fin 1, Fin 2, Fin 3])]\<rparr>"

definition count_only :: seastats_arg where
  "count_only = StatsDict [(''cnt'', Named ''count'')]"

section \<open>Properties\<close>

subsection \<open>Slices of a sorted index\<close>

lemma slice_pairs_sorted:
  "sorted (map fst ps) \<Longrightarrow>
   take (bisect_right (map fst ps) b - bisect_left (map fst ps) a)
        (drop (bisect_left (map fst ps) a) ps)
   = filter (\<lambda>p. a \<le> fst p \<and> fst p \<le> b) ps"
proof (induction ps)
  case Nil
  then show ?case by (simp add: bisect_left_def bisect_right_def)
next
  case (Cons p ps)
  from Cons.prems have srt: "sorted (map fst ps)" and ge: "\<forall>q\<in>set ps. fst p \<le> fst q"
    by auto
  note IH = Cons.IH [OF srt]
  show ?case
  proof (cases "fst p \<le> b")
    case le: True
    show ?thesis
    proof (cases "fst p < a")
      case True
      with le IH show ?thesis by (simp add: bisect_left_def bisect_right_def)
    next
      case False
      with ge have "takeWhile (\<lambda>t. t < a) (map fst ps) = []"
        by (cases ps) auto
      with False le IH show ?thesis by (simp add: bisect_left_def bisect_right_def)
    qed
  next
    case False
    with ge have "filter (\<lambda>p. a \<le> fst p \<and> fst p \<le> b) ps = []"
      by (auto simp: filter_empty_conv)
    with False show ?thesis by (simp add: bisect_left_def bisect_right_def)
  qed
qed

lemma window_sorted:
  assumes "sorted ts"
  shows "window ts a b = filter (\<lambda>t. a \<le> t \<and> t \<le> b) ts"
proof -
  let ?ps = "map (\<lambda>t. (t, ())) ts"
  have "map fst (take (bisect_right ts b - bisect_left ts a) (drop (bisect_left ts a) ?ps))
        = map fst (filter (\<lambda>p. a \<le> fst p \<and> fst p \<le> b) ?ps)"
    using slice_pairs_sorted [of ?ps b a] assms by (simp add: comp_def)
  then show ?thesis
    by (simp add: window_def take_map drop_map filter_map comp_def)
qed

lemma slice_values_sorted:
  assumes "sorted ts" "length vs = length ts"
  shows "take (bisect_right ts b - bisect_left ts a) (drop (bisect_left ts a) vs)
         = map snd (filter (\<lambda>p. a \<le> fst p \<and> fst p \<le> b) (zip ts vs))"
proof -
  have m: "map fst (zip ts vs) = ts" using assms by simp
  have "map snd (take (bisect_right ts b - bisect_left ts a) (drop (bisect_left ts a) (zip ts vs)))
        = map snd (filter (\<lambda>p. a \<le> fst p \<and> fst p \<le> b) (zip ts vs))"
    using slice_pairs_sorted [of "zip ts vs" b a] assms m by simp
  then show ?thesis
    using assms by (simp add: take_map [symmetric] drop_map [symmetric])
qed

lemma index_loc_slice: "index (loc_slice f a b) = window (index f) a b"
  by (simp add: loc_slice_def iloc_slice_def window_def)

lemma index_normalize_phase: "index (normalize_phase p) = index p"
  by (simp add: normalize_phase_def assign_def Let_def)

subsection \<open>The data that is analysed\<close>

lemma getitems_error: "getitems f ns = Inl e \<Longrightarrow> e = KeyError"
  by (induction ns arbitrary: e) (auto simp: getitem_def split: sum.splits option.splits)

lemma select_data_error: "select_data data cols y_col yd = Inl e \<Longrightarrow> e = KeyError"
  by (auto simp: select_data_def getitem_list_def Let_def dest: getitems_error
           split: data_arg.splits if_splits sum.splits option.splits)

lemma index_getitem_list: "getitem_list f names = Inr g \<Longrightarrow> index g = index f"
  by (auto simp: getitem_list_def split: sum.splits)

lemma index_select_data:
  "select_data data cols y_col yd = Inr (se, c', y') \<Longrightarrow> index se = data_index data"
  by (auto simp: select_data_def data_index_def to_frame_def Let_def
           dest: index_getitem_list split: data_arg.splits if_splits sum.splits)

subsection \<open>The event loop\<close>

lemma event_loop_char:
  assumes "\<forall>i\<in>set is. i < length epochs \<and> i < length ends"
  shows "event_loop se starts epochs ends is (p1, p2, out) =
     Inr (p1 @ map (\<lambda>i. normalize_phase (loc_slice se (starts ! i) (epochs ! i)))
                 (filter (\<lambda>i. \<not> event_skipped se starts epochs ends i) is),
          p2 @ map (\<lambda>i. normalize_phase (loc_slice se (epochs ! i) (ends ! i)))
                 (filter (\<lambda>i. \<not> event_skipped se starts epochs ends i) is),
          out @ map no_data_message (filter (event_skipped se starts epochs ends) is))"
  using assms
proof (induction "is" arbitrary: p1 p2 out)
  case Nil
  then show ?case by simp
next
  case (Cons i "is")
  then show ?case
    by (simp add: event_skipped_def Let_def)
qed

lemma run_events_char:
  assumes "length starts \<le> length epochs" "length starts \<le> length ends"
  shows "run_events se (starts, epochs, ends) =
     Inr (map (\<lambda>i. normalize_phase (loc_slice se (starts ! i) (epochs ! i)))
            (survivors se starts epochs ends),
          map (\<lambda>i. normalize_phase (loc_slice se (epochs ! i) (ends ! i)))
            (survivors se starts epochs ends),
          map no_data_message
            (filter (event_skipped se starts epochs ends) [0..<length starts]))"
  using assms event_loop_char [of "[0..<length starts]" epochs ends se starts "[]" "[]" "[]"]
  by (simp add: run_events_def survivors_def)

lemma event_loop_all_skipped:
  assumes "\<forall>i\<in>set is. i < length epochs \<longrightarrow> i < length ends \<longrightarrow>
             event_skipped se starts epochs ends i"
  shows "event_loop se starts epochs ends is (p1, p2, out) = Inl IndexError \<or>
         (\<exists>out'. event_loop se starts epochs ends is (p1, p2, out) = Inr (p1, p2, out'))"
  using assms
proof (induction "is" arbitrary: out)
  case Nil
  then show ?case by simp
next
  case (Cons i "is")
  then show ?case
    by (auto simp: event_skipped_def Let_def)
qed

lemma event_loop_frames:
  assumes "event_loop se starts epochs ends is (p1, p2, out) = Inr (p1', p2', out')"
      and "\<forall>f\<in>set p1 \<union> set p2. \<exists>a b. f = normalize_phase (loc_slice se a b) \<and> \<not> df_empty (loc_slice se a b)"
  shows "\<forall>f\<in>set p1' \<union> set p2'. \<exists>a b. f = normalize_phase (loc_slice se a b) \<and> \<not> df_empty (loc_slice se a b)"
  using assms
proof (induction "is" arbitrary: p1 p2 out)
  case Nil
  then show ?case by simp
next
  case (Cons i "is")
  show ?case
  proof (cases "length epochs \<le> i \<or> length ends \<le> i")
    case True
    with Cons.prems(1) show ?thesis by simp
  next
    case inb: False
    show ?thesis
    proof (cases "event_skipped se starts epochs ends i")
      case True
      with inb Cons.prems(1)
      have "event_loop se starts epochs ends is (p1, p2, out @ [no_data_message i]) = Inr (p1', p2', out')"
        by (simp add: event_skipped_def Let_def)
      from Cons.IH [OF this Cons.prems(2)] show ?thesis .
    next
      case False
      with inb Cons.prems(1)
      have run: "event_loop se starts epochs ends is
              (p1 @ [normalize_phase (loc_slice se (starts ! i) (epochs ! i))],
               p2 @ [normalize_phase (loc_slice se (epochs ! i) (ends ! i))], out) = Inr (p1', p2', out')"
        by (simp add: event_skipped_def Let_def)
      have "\<forall>f\<in>set (p1 @ [normalize_phase (loc_slice se (starts ! i) (epochs ! i))]) \<union>
                 set (p2 @ [normalize_phase (loc_slice se (epochs ! i) (ends ! i))]).
              \<exists>a b. f = normalize_phase (loc_slice se a b) \<and> \<not> df_empty (loc_slice se a b)"
        using Cons.prems(2) False by (auto simp: event_skipped_def)
      from Cons.IH [OF run this] show ?thesis .
    qed
  qed
qed

lemma run_events_frames:
  assumes "run_events se (starts, epochs, ends) = Inr (p1s, p2s, out)" and "f \<in> set p1s \<union> set p2s"
  shows "\<exists>a b. f = normalize_phase (loc_slice se a b) \<and> \<not> df_empty (loc_slice se a b)"
  using event_loop_frames [of se starts epochs ends "[0..<length starts]" "[]" "[]" "[]" p1s p2s out] assms
  by (simp add: run_events_def)

subsection \<open>Normalized time\<close>

lemma t_norm_normalize_phase:
  "column_of ''t_norm'' (normalize_phase ph) =
     map (\<lambda>s. np_div (s - hd (elapsed ph)) (last (elapsed ph) - hd (elapsed ph))) (elapsed ph)"
  by (simp add: column_of_def normalize_phase_def assign_def Let_def elapsed_def update_conv')

lemma elapsed_normalize_phase: "elapsed (normalize_phase ph) = elapsed ph"
  by (simp add: elapsed_def index_normalize_phase)

lemma elapsed_empty: "elapsed ph = [] \<longleftrightarrow> index ph = []"
  by (simp add: elapsed_def)

lemma hd_elapsed: "index ph \<noteq> [] \<Longrightarrow> hd (elapsed ph) = 0"
  by (simp add: elapsed_def hd_map total_seconds_def)

lemma last_elapsed:
  "index ph \<noteq> [] \<Longrightarrow> last (elapsed ph) = total_seconds (last (index ph) - hd (index ph))"
  by (simp add: elapsed_def last_map)

lemma total_seconds_mono: "a \<le> b \<Longrightarrow> total_seconds a \<le> total_seconds b"
  by (simp add: total_seconds_def divide_right_mono)

lemma total_seconds_pos: "0 < total_seconds d \<longleftrightarrow> 0 < d"
  by (simp add: total_seconds_def)

lemma sorted_bounds:
  assumes "sorted (ts :: int list)" "t \<in> set ts"
  shows "hd ts \<le> t \<and> t \<le> last ts"
proof -
  from assms(2) obtain k where k: "k < length ts" "ts ! k = t" by (auto simp: in_set_conv_nth)
  then have ne: "ts \<noteq> []" by auto
  have "ts ! 0 \<le> ts ! k" using assms(1) k by (auto intro: sorted_nth_mono)
  moreover have "ts ! k \<le> ts ! (length ts - 1)" using assms(1) k by (auto intro: sorted_nth_mono)
  ultimately show ?thesis using k ne by (simp add: hd_conv_nth last_conv_nth)
qed

lemma sorted_window: "sorted ts \<Longrightarrow> sorted (window ts a b)"
  by (simp add: window_sorted sorted_wrt_filter)

lemma elapsed_range:
  assumes "sorted (index ph)" "e \<in> set (elapsed ph)"
  shows "hd (elapsed ph) \<le> e \<and> e \<le> last (elapsed ph)"
proof -
  from assms(2) obtain t where t: "t \<in> set (index ph)" "e = total_seconds (t - hd (index ph))"
    by (auto simp: elapsed_def)
  then have ne: "index ph \<noteq> []" by auto
  from sorted_bounds [OF assms(1) t(1)] have "hd (index ph) \<le> t" "t \<le> last (index ph)" by auto
  then show ?thesis
    using t ne by (simp add: hd_elapsed last_elapsed total_seconds_mono total_seconds_def)
qed

lemma Min_elapsed:
  assumes "sorted (index ph)" "index ph \<noteq> []"
  shows "Min (set (elapsed ph)) = hd (elapsed ph)"
proof (rule Min_eqI)
  show "finite (set (elapsed ph))" by simp
  show "hd (elapsed ph) \<le> y" if "y \<in> set (elapsed ph)" for y
    using elapsed_range [OF assms(1) that] by simp
  show "hd (elapsed ph) \<in> set (elapsed ph)" using assms(2) by (simp add: elapsed_empty)
qed

lemma Max_elapsed:
  assumes "sorted (index ph)" "index ph \<noteq> []"
  shows "Max (set (elapsed ph)) = last (elapsed ph)"
proof (rule Max_eqI)
  show "finite (set (elapsed ph))" by simp
  show "y \<le> last (elapsed ph)" if "y \<in> set (elapsed ph)" for y
    using elapsed_range [OF assms(1) that] by simp
  show "last (elapsed ph) \<in> set (elapsed ph)" using assms(2) by (simp add: elapsed_empty)
qed


subsection \<open>Windows, pooling and bins\<close>

lemma columns_loc_slice:
  assumes "sorted (index se)" "\<forall>(n, vs)\<in>set (columns se). length vs = length (index se)"
  shows "columns (loc_slice se a b) =
           map (\<lambda>(n, vs). (n, map snd (filter (\<lambda>p. a \<le> fst p \<and> fst p \<le> b) (zip (index se) vs))))
             (columns se)"
proof -
  have vals: "take (bisect_right (index se) b - bisect_left (index se) a)
                (drop (bisect_left (index se) a) vs) =
              map snd (filter (\<lambda>p. a \<le> fst p \<and> fst p \<le> b) (zip (index se) vs))"
    if "(n, vs) \<in> set (columns se)" for n vs
  proof (rule slice_values_sorted [OF assms(1)])
    from that assms(2) show "length vs = length (index se)" by blast
  qed
  have "map (\<lambda>(n, vs). (n, take (bisect_right (index se) b - bisect_left (index se) a)
                               (drop (bisect_left (index se) a) vs))) (columns se) =
        map (\<lambda>(n, vs). (n, map snd (filter (\<lambda>p. a \<le> fst p \<and> fst p \<le> b) (zip (index se) vs))))
          (columns se)"
  proof (rule map_cong [OF refl])
    fix x assume mem: "x \<in> set (columns se)"
    obtain n vs where x: "x = (n, vs)" by (cases x)
    from mem x vals [of n vs]
    show "(case x of (n, vs) \<Rightarrow> (n, take (bisect_right (index se) b - bisect_left (index se) a)
                               (drop (bisect_left (index se) a) vs))) =
          (case x of (n, vs) \<Rightarrow> (n, map snd (filter (\<lambda>p. a \<le> fst p \<and> fst p \<le> b) (zip (index se) vs))))"
      by simp
  qed
  then show ?thesis by (simp add: loc_slice_def iloc_slice_def)
qed

lemma index_pd_concat: "pd_concat fs = Inr p \<Longrightarrow> index p = concat (map index fs)"
  by (cases fs) auto

lemma pd_concat_nonempty: "fs \<noteq> [] \<Longrightarrow> \<exists>p. pd_concat fs = Inr p"
  by (cases fs) auto

lemma count_list_filter: "count_list (filter P xs) x = (if P x then count_list xs x else 0)"
  by (induction xs) auto

lemma count_list_concat: "xs \<in> set xss \<Longrightarrow> count_list xs x \<le> count_list (concat xss) x"
  by (induction xss) (auto simp: count_list_append)

lemma window_nonempty_order:
  assumes "sorted ts" "window ts a b \<noteq> []"
  shows "a \<le> b"
proof -
  from assms have "filter (\<lambda>t. a \<le> t \<and> t \<le> b) ts \<noteq> []"
    by (simp add: window_sorted)
  then obtain t where "a \<le> t" "t \<le> b"
    by (auto simp: filter_empty_conv)
  then show ?thesis by simp
qed




lemmas slice_eval = loc_slice_def iloc_slice_def bisect_left_def bisect_right_def df_empty_def

subsection \<open>The assembly\<close>

lemma assemble_no_frames:
  "assemble L xd cols sv y yd rd [] p2 out = Inl NoObjectsToConcatenate"
  by (simp add: assemble_def)


subsection \<open>The bin grid\<close>

lemma length_linspace01: "linspace01 n = Inr es \<Longrightarrow> length es = nat n"
  by (auto simp: linspace01_def split: if_splits)

lemma np_max_ge:
  assumes "np_max xs = Inr m" "y \<in> set xs"
  shows "y \<le> m"
proof (cases xs)
  case Nil
  with assms show ?thesis by simp
next
  case (Cons x ys)
  from assms(2) have "y \<le> Max (set (x # ys))" unfolding Cons by (intro Max_ge) auto
  then have "y \<le> fold max ys x" by (simp only: Max.set_eq_fold)
  with assms(1) Cons show ?thesis by (simp add: np_max_def)
qed

lemma time_axis_Inr:
  assumes "time_axis s1 s2 b1 b2 = Inr ax"
  shows "\<exists>m. np_max b1 = Inr m \<and>
             ax = map (\<lambda>b. (b - m - s1) / s1) b1 @ map (\<lambda>b. b / s2) b2"
  using assms by (auto simp: time_axis_def split: sum.splits)

lemma np_max_nonempty: "np_max xs = Inr m \<Longrightarrow> xs \<noteq> []"
  by (auto simp: np_max_def)

lemma bin_grid_Inr:
  assumes "bin_grid xd y yd = Inr (x1e, x2e, sea2d, ax)"
  shows "linspace01 (fst xd) = Inr x1e \<and> linspace01 (snd xd) = Inr x2e \<and>
         y_grid y yd = Inr sea2d \<and>
         time_axis (1 / of_int (fst xd)) (1 / of_int (snd xd)) (butlast x1e) (butlast x2e) = Inr ax"
  using assms by (auto simp: bin_grid_def split: sum.splits)











subsection \<open>The statistics of one reducer\<close>

lemma length_getitems: "getitems f ns = Inr vs \<Longrightarrow> length vs = length ns"
  by (induction ns arbitrary: vs) (auto split: sum.splits)


lemma binned_statistic_Inr:
  assumes "binned_statistic L xs values edges s = Inr p"
  shows "valid_edges edges \<and> length p = length values \<and>
         (\<forall>row\<in>set p. length row = length edges - 1)"
  using assms by (auto simp: binned_statistic_def split: if_splits)

lemma binned_statistic_2d_Inr:
  assumes "binned_statistic_2d L xs ys values xedges yedges s = Inr p"
  shows "valid_edges xedges \<and> valid_edges yedges \<and> length p = length values \<and>
         (\<forall>m\<in>set p. length m = length xedges - 1)"
  using assms by (auto simp: binned_statistic_2d_def split: if_splits)

lemma stat_columns_1d_lengths:
  assumes "stat_columns_1d L p1 p2 ph1 ph2 x1e x2e cols s_name s_fun = Inr as"
      and "(n, v) \<in> set as"
  shows "length v = (length x1e - 1) + (length x2e - 1)"
proof -
  from assms(1) obtain p1stat p2stat where
    b1: "binned_statistic L (column_of ''t_norm'' p1) ph1 x1e s_fun = Inr p1stat" and
    b2: "binned_statistic L (column_of ''t_norm'' p2) ph2 x2e s_fun = Inr p2stat" and
    as: "as = map (\<lambda>(p1_col, p2_col, c). (c @ ''_'' @ s_name, p1_col @ p2_col))
               (zip p1stat (zip p2stat cols))"
    by (auto simp: stat_columns_1d_def split: sum.splits)
  from assms(2) as obtain a b c where
    abc: "(a, b, c) \<in> set (zip p1stat (zip p2stat cols))" and v: "v = a @ b"
    by auto
  from abc have "a \<in> set p1stat" "b \<in> set p2stat"
    by (auto dest: set_zip_leftD set_zip_rightD)
  with binned_statistic_Inr [OF b1] binned_statistic_Inr [OF b2] v show ?thesis by simp
qed

lemma stat_columns_1d_valid:
  assumes "stat_columns_1d L p1 p2 ph1 ph2 x1e x2e cols s_name s_fun = Inr as"
  shows "valid_edges x1e \<and> valid_edges x2e"
  using assms
  by (auto simp: stat_columns_1d_def split: sum.splits dest: binned_statistic_Inr)


lemma stat_columns_2d_lengths:
  assumes "stat_columns_2d L p1 p2 y ph1 ph2 x1e x2e ye cols s_name s_fun = Inr as"
      and "(n, v) \<in> set as" and "length ph1 = length ph2"
  shows "length v = (length x1e - 1) + (length x2e - 1)"
proof -
  from assms(1) obtain p1stat p2stat where
    b1: "binned_statistic_2d L (column_of ''t_norm'' p1) (column_of y p1) ph1 x1e ye s_fun = Inr p1stat" and
    b2: "binned_statistic_2d L (column_of ''t_norm'' p2) (column_of y p2) ph2 x2e ye s_fun = Inr p2stat" and
    as: "as = concat (map (\<lambda>i.
                      map (\<lambda>j. (cols ! i @ ''_'' @ s_name @ ''_'' @ pad3 j,
                                map (\<lambda>row. row ! j) (p1stat ! i) @
                                map (\<lambda>row. row ! j) (p2stat ! i)))
                        [0..<length ye - 1])
                      [0..<length p1stat])"
    by (auto simp: stat_columns_2d_def split: sum.splits)
  from assms(2) have "\<exists>i<length p1stat. \<exists>j.
      v = map (\<lambda>row. row ! j) (p1stat ! i) @ map (\<lambda>row. row ! j) (p2stat ! i)"
    unfolding as by auto
  then obtain i j where
    i: "i < length p1stat" and v: "v = map (\<lambda>row. row ! j) (p1stat ! i) @ map (\<lambda>row. row ! j) (p2stat ! i)"
    by blast
  from binned_statistic_2d_Inr [OF b1] binned_statistic_2d_Inr [OF b2] assms(3) i
  have "p1stat ! i \<in> set p1stat" "p2stat ! i \<in> set p2stat" by auto
  with binned_statistic_2d_Inr [OF b1] binned_statistic_2d_Inr [OF b2] v show ?thesis by simp
qed

lemma stat_columns_2d_valid:
  assumes "stat_columns_2d L p1 p2 y ph1 ph2 x1e x2e ye cols s_name s_fun = Inr as"
  shows "valid_edges x1e \<and> valid_edges x2e"
  using assms
  by (auto simp: stat_columns_2d_def split: sum.splits dest: binned_statistic_2d_Inr)





subsection \<open>The loop over the reducers\<close>

lemma set_update_cases:
  "(n, v) \<in> set (AList.update k w al) \<Longrightarrow> (n, v) = (k, w) \<or> (n, v) \<in> set al"
  by (induction al) (auto split: if_splits)

lemma fold_update_lengths:
  assumes "\<forall>(n, v)\<in>set as. length v = N" "\<forall>(n, v)\<in>set tbl. length v = N"
  shows "\<forall>(n, v)\<in>set (fold (\<lambda>(n, v). AList.update n v) as tbl). length v = N"
  using assms
proof (induction as arbitrary: tbl)
  case Nil
  then show ?case by simp
next
  case (Cons a as)
  obtain k w where a: "a = (k, w)" by (cases a)
  have "\<forall>(n, v)\<in>set (AList.update k w tbl). length v = N"
    using Cons.prems a by (auto dest: set_update_cases)
  with Cons.IH [of "AList.update k w tbl"] Cons.prems(1) a show ?case by simp
qed

lemma fold_update_keys:
  "k \<in> fst ` set tbl \<Longrightarrow> k \<in> fst ` set (fold (\<lambda>(n, v). AList.update n v) as tbl)"
proof (induction as arbitrary: tbl)
  case Nil
  then show ?case by simp
next
  case (Cons a as)
  obtain k' w where a: "a = (k', w)" by (cases a)
  from Cons.prems have "k \<in> fst ` set (AList.update k' w tbl)" by (simp add: dom_update)
  from Cons.IH [OF this] a show ?case by simp
qed


lemma stats_loop_lengths:
  assumes "stats_loop one_stat sv tbl = Inr tbl'"
      and "\<And>s_name s_fun as n v. one_stat s_name s_fun = Inr as \<Longrightarrow> (n, v) \<in> set as \<Longrightarrow> length v = N"
      and "\<forall>(n, v)\<in>set tbl. length v = N"
  shows "\<forall>(n, v)\<in>set tbl'. length v = N"
  using assms(1,3)
proof (induction sv arbitrary: tbl)
  case Nil
  then show ?case by simp
next
  case (Cons s sv)
  obtain s_name s_fun where s: "s = (s_name, s_fun)" by (cases s)
  from Cons.prems(1) s obtain as where
    one: "one_stat s_name s_fun = Inr as" and
    rest: "stats_loop one_stat sv (fold (\<lambda>(n, v). AList.update n v) as tbl) = Inr tbl'"
    by (auto split: sum.splits)
  have "\<forall>(n, v)\<in>set as. length v = N" using assms(2) [OF one] by auto
  from fold_update_lengths [OF this Cons.prems(2)] Cons.IH [OF rest] show ?case by blast
qed

lemma stats_loop_keys:
  assumes "stats_loop one_stat sv tbl = Inr tbl'" "k \<in> fst ` set tbl"
  shows "k \<in> fst ` set tbl'"
  using assms
proof (induction sv arbitrary: tbl)
  case Nil
  then show ?case by simp
next
  case (Cons s sv)
  obtain s_name s_fun where s: "s = (s_name, s_fun)" by (cases s)
  from Cons.prems(1) s obtain as where
    rest: "stats_loop one_stat sv (fold (\<lambda>(n, v). AList.update n v) as tbl) = Inr tbl'"
    by (auto split: sum.splits)
  from Cons.IH [OF rest fold_update_keys [OF Cons.prems(2)]] show ?case .
qed


lemma stats_loop_first:
  assumes "stats_loop one_stat sv tbl = Inr tbl'" "sv \<noteq> []"
  shows "\<exists>s_name s_fun as. (s_name, s_fun) \<in> set sv \<and> one_stat s_name s_fun = Inr as"
proof (cases sv)
  case Nil
  with assms(2) show ?thesis by simp
next
  case (Cons s rest)
  obtain s_name s_fun where s: "s = (s_name, s_fun)" by (cases s)
  from assms(1) Cons s obtain as where "one_stat s_name s_fun = Inr as"
    by (auto split: sum.splits)
  moreover have "(s_name, s_fun) \<in> set sv" using Cons s by simp
  ultimately show ?thesis by blast
qed

lemma resolve_stats_nonempty: "resolve_stats L seastats \<noteq> []"
  by (auto simp: resolve_stats_def default_stats_def split: seastats_arg.splits)

subsection \<open>The result table\<close>

lemma sean_Inr:
  assumes "sean L data events xd cols seastats y_col yd rd = Inr r"
  obtains se cols' y' p1s p2s out where
    "fst xd \<noteq> 0" "snd xd \<noteq> 0"
    "select_data data cols y_col yd = Inr (se, cols', y')"
    "run_events se events = Inr (p1s, p2s, out)"
    "assemble L xd cols' (resolve_stats L seastats) y' yd rd p1s p2s out = Inr r"
  using assms by (auto simp: sean_def split: if_splits sum.splits prod.splits)

lemma assemble_Inr:
  assumes "assemble L xd cols sv y yd rd p1s p2s out = Inr r"
  obtains p1data p2data x1e x2e sea2d ax tbl where
    "pd_concat p1s = Inr p1data" "pd_concat p2s = Inr p2data"
    "bin_grid xd y yd = Inr (x1e, x2e, sea2d, ax)"
    "fill_table L p1data p2data (cols_items cols) sv x1e x2e sea2d ax = Inr tbl"
    "SEAdat r = set_index ''t_norm'' tbl"
    "y_meta (meta r) = map_option snd sea2d"
  using assms by (auto simp: assemble_def split: sum.splits prod.splits)

lemma fill_table_Inr:
  assumes "fill_table L p1 p2 cols sv x1e x2e sea2d ax = Inr tbl"
  obtains ph1 ph2 where
    "getitems p1 cols = Inr ph1" "getitems p2 cols = Inr ph2"
    "stats_loop
       (case sea2d of
          Some (y, yi) \<Rightarrow> stat_columns_2d L p1 p2 y ph1 ph2 x1e x2e (y_edges yi) cols
        | None \<Rightarrow> stat_columns_1d L p1 p2 ph1 ph2 x1e x2e cols)
       sv [(''t_norm'', map Fin ax)] = Inr tbl"
  using assms by (auto simp: fill_table_def split: sum.splits)

lemma one_stat_lengths:
  assumes "(case sea2d of
              Some (y, yi) \<Rightarrow> stat_columns_2d L p1 p2 y ph1 ph2 x1e x2e (y_edges yi) cols
            | None \<Rightarrow> stat_columns_1d L p1 p2 ph1 ph2 x1e x2e cols) s_name s_fun = Inr as"
      and "(n, v) \<in> set as" and "length ph1 = length ph2"
  shows "length v = (length x1e - 1) + (length x2e - 1)"
proof (cases sea2d)
  case None
  with assms show ?thesis by (auto dest: stat_columns_1d_lengths)
next
  case (Some a)
  obtain y yi where "a = (y, yi)" by (cases a)
  with Some assms show ?thesis by (auto dest: stat_columns_2d_lengths)
qed

lemma one_stat_valid:
  assumes "(case sea2d of
              Some (y, yi) \<Rightarrow> stat_columns_2d L p1 p2 y ph1 ph2 x1e x2e (y_edges yi) cols
            | None \<Rightarrow> stat_columns_1d L p1 p2 ph1 ph2 x1e x2e cols) s_name s_fun = Inr as"
  shows "valid_edges x1e \<and> valid_edges x2e"
proof (cases sea2d)
  case None
  with assms show ?thesis by (auto dest: stat_columns_1d_valid)
next
  case (Some a)
  obtain y yi where "a = (y, yi)" by (cases a)
  with Some assms show ?thesis by (auto dest: stat_columns_2d_valid)
qed


lemma fill_table_lengths:
  assumes ft: "fill_table L p1 p2 cols sv x1e x2e sea2d ax = Inr tbl"
      and ax: "length ax = (length x1e - 1) + (length x2e - 1)"
  shows "(\<forall>(n, v)\<in>set tbl. length v = length ax) \<and> ''t_norm'' \<in> fst ` set tbl"
proof -
  from ft obtain ph1 ph2 where
    g1: "getitems p1 cols = Inr ph1" and g2: "getitems p2 cols = Inr ph2" and
    sl: "stats_loop
       (case sea2d of
          Some (y, yi) \<Rightarrow> stat_columns_2d L p1 p2 y ph1 ph2 x1e x2e (y_edges yi) cols
        | None \<Rightarrow> stat_columns_1d L p1 p2 ph1 ph2 x1e x2e cols)
       sv [(''t_norm'', map Fin ax)] = Inr tbl"
    by (rule fill_table_Inr)
  have len: "length ph1 = length ph2"
    using length_getitems [OF g1] length_getitems [OF g2] by simp
  have "\<forall>(n, v)\<in>set tbl. length v = length ax"
  proof (rule stats_loop_lengths [OF sl])
    show "\<forall>(n, v)\<in>set [(''t_norm'', map Fin ax)]. length v = length ax" by simp
  next
    fix s_name s_fun as n v
    assume "(case sea2d of
              Some (y, yi) \<Rightarrow> stat_columns_2d L p1 p2 y ph1 ph2 x1e x2e (y_edges yi) cols
            | None \<Rightarrow> stat_columns_1d L p1 p2 ph1 ph2 x1e x2e cols) s_name s_fun = Inr as"
       "(n, v) \<in> set as"
    from one_stat_lengths [OF this len] ax show "length v = length ax" by simp
  qed
  moreover have "''t_norm'' \<in> fst ` set tbl"
    by (rule stats_loop_keys [OF sl]) simp
  ultimately show ?thesis by simp
qed

lemma fill_table_valid:
  assumes ft: "fill_table L p1 p2 cols sv x1e x2e sea2d ax = Inr tbl" and "sv \<noteq> []"
  shows "valid_edges x1e \<and> valid_edges x2e"
proof -
  from ft obtain ph1 ph2 where
    sl: "stats_loop
       (case sea2d of
          Some (y, yi) \<Rightarrow> stat_columns_2d L p1 p2 y ph1 ph2 x1e x2e (y_edges yi) cols
        | None \<Rightarrow> stat_columns_1d L p1 p2 ph1 ph2 x1e x2e cols)
       sv [(''t_norm'', map Fin ax)] = Inr tbl"
    by (rule fill_table_Inr)
  from stats_loop_first [OF sl assms(2)] one_stat_valid show ?thesis by blast
qed


lemma set_index_lengths:
  assumes "\<forall>(n, v)\<in>set tbl. length v = N" "k \<in> fst ` set tbl"
  shows "length (t_index (set_index k tbl)) = N \<and>
         (\<forall>(n, v)\<in>set (t_columns (set_index k tbl)). length v = N)"
proof -
  from assms(2) obtain w where w: "map_of tbl k = Some w"
    by (cases "map_of tbl k") (auto simp: map_of_eq_None_iff)
  then have "(k, w) \<in> set tbl" by (rule map_of_SomeD)
  with assms(1) have "length w = N" by auto
  moreover have "set (AList.delete k tbl) \<subseteq> set tbl" by (auto simp: AList.delete_eq)
  ultimately show ?thesis using w assms(1) by (auto simp: set_index_def)
qed

lemma grid_lengths:
  assumes "bin_grid (x1, x2) y yd = Inr (x1e, x2e, sea2d, ax)"
  shows "length x1e = nat x1 \<and> length x2e = nat x2 \<and> 2 \<le> x1 \<and>
         length ax = (length x1e - 1) + (length x2e - 1)"
proof -
  from bin_grid_Inr [OF assms] have
    l1: "linspace01 x1 = Inr x1e" and l2: "linspace01 x2 = Inr x2e" and
    ta: "time_axis (1 / of_int x1) (1 / of_int x2) (butlast x1e) (butlast x2e) = Inr ax"
    by simp_all
  from time_axis_Inr [OF ta] obtain m where
    m: "np_max (butlast x1e) = Inr m" and
    ax: "ax = map (\<lambda>b. (b - m - 1 / of_int x1) / (1 / of_int x1)) (butlast x1e) @
              map (\<lambda>b. b / (1 / of_int x2)) (butlast x2e)"
    by blast
  from np_max_nonempty [OF m] have "butlast x1e \<noteq> []" .
  then have "2 \<le> length x1e" by (cases x1e) (auto simp: Suc_le_eq)
  with length_linspace01 [OF l1] length_linspace01 [OF l2] ax show ?thesis by auto
qed










subsection \<open>A Series as input\<close>





subsection \<open>Two runs of the examples\<close>

lemma tiny_run_returns:
  "\<not> isl (sean np_exact (DataFrame tiny_frame) ([0], [10], [20]) (2, 2) ColsFalse count_only
            None None False)"
  by code_simp


subsection \<open>Skipped events\<close>

text \<open>
  Claim C4. An event whose phase-1 or phase-2 window is empty is skipped as a whole: the
  loop does not raise, it prints the line that names the index of the event, and the frames
  it collects for the two pooled sample sets are those of the other events that have data
  in both phases, so the remaining events are still processed and the skipped one adds no
  sample to either set. The event lists are taken to have equal length.
\<close>

theorem skipped_event_contributes_nothing:
  assumes lens: "length starts \<le> length epochs" "length starts \<le> length ends"
      and i: "i < length starts"
      and emp: "df_empty (loc_slice se (starts ! i) (epochs ! i)) \<or>
                df_empty (loc_slice se (epochs ! i) (ends ! i))"
  shows "\<exists>out. run_events se (starts, epochs, ends) =
            Inr (map (\<lambda>k. normalize_phase (loc_slice se (starts ! k) (epochs ! k)))
                   (filter (\<lambda>k. k \<noteq> i) (survivors se starts epochs ends)),
                 map (\<lambda>k. normalize_phase (loc_slice se (epochs ! k) (ends ! k)))
                   (filter (\<lambda>k. k \<noteq> i) (survivors se starts epochs ends)),
                 out) \<and>
            no_data_message i \<in> set out"
proof -
  have sk: "event_skipped se starts epochs ends i" using emp by (simp add: event_skipped_def)
  then have "filter (\<lambda>k. k \<noteq> i) (survivors se starts epochs ends) = survivors se starts epochs ends"
    by (auto simp: survivors_def intro!: filter_cong)
  moreover have "no_data_message i \<in>
      set (map no_data_message (filter (event_skipped se starts epochs ends) [0..<length starts]))"
    using sk i by simp
  ultimately show ?thesis
    using run_events_char [OF lens, of se] by auto
qed

theorem skipped_event_contributes_nothing_witness:
  "\<exists>out. run_events example_frame ([0, 100], [20, 120], [40, 130]) =
           Inr ([normalize_phase (loc_slice example_frame 0 20)],
                [normalize_phase (loc_slice example_frame 20 40)], out) \<and>
         ''There is no data for event 1'' \<in> set out"
proof -
  have emp: "df_empty (loc_slice example_frame ([0, 100] ! 1) ([20, 120] ! 1)) \<or>
             df_empty (loc_slice example_frame ([20, 120] ! 1) ([40, 130] ! 1))"
    by (simp add: slice_eval example_frame_def)
  have sv: "survivors example_frame [0, 100] [20, 120] [40, 130] = [0]"
    by (simp add: survivors_def event_skipped_def slice_eval example_frame_def upt_rec)
  have msg: "no_data_message (Suc 0) = ''There is no data for event 1''"
    by (simp add: no_data_message_def show_nat.simps)
  from skipped_event_contributes_nothing [of "[0, 100]" "[20, 120]" "[40, 130]" 1 example_frame, OF _ _ _ emp]
  show ?thesis by (simp add: sv msg)
qed

subsection \<open>The phase windows\<close>

text \<open>
  Claim C5. On a sorted time index, the phase-1 window of a processed event is made of the
  rows with a timestamp in the closed interval from \<open>t0\<close> to \<open>t1\<close> and the phase-2 window
  of those from \<open>t1\<close> to \<open>t2\<close>, index and columns alike. Both intervals contain \<open>t1\<close>:
  every row at the epoch is in both windows, and the pooled frames of both phases hold it.
\<close>

theorem phase_windows_closed:
  assumes srt: "sorted (index se)"
      and wf: "\<forall>(n, vs)\<in>set (columns se). length vs = length (index se)"
      and lens: "length starts \<le> length epochs" "length starts \<le> length ends"
      and i: "i < length starts"
      and proc: "\<not> event_skipped se starts epochs ends i"
  shows "index (loc_slice se (starts ! i) (epochs ! i)) =
           filter (\<lambda>t. starts ! i \<le> t \<and> t \<le> epochs ! i) (index se) \<and>
         index (loc_slice se (epochs ! i) (ends ! i)) =
           filter (\<lambda>t. epochs ! i \<le> t \<and> t \<le> ends ! i) (index se) \<and>
         columns (loc_slice se (starts ! i) (epochs ! i)) =
           map (\<lambda>(n, vs). (n, map snd (filter (\<lambda>p. starts ! i \<le> fst p \<and> fst p \<le> epochs ! i)
                                          (zip (index se) vs)))) (columns se) \<and>
         columns (loc_slice se (epochs ! i) (ends ! i)) =
           map (\<lambda>(n, vs). (n, map snd (filter (\<lambda>p. epochs ! i \<le> fst p \<and> fst p \<le> ends ! i)
                                          (zip (index se) vs)))) (columns se) \<and>
         count_list (index (loc_slice se (starts ! i) (epochs ! i))) (epochs ! i) =
           count_list (index se) (epochs ! i) \<and>
         count_list (index (loc_slice se (epochs ! i) (ends ! i))) (epochs ! i) =
           count_list (index se) (epochs ! i) \<and>
         (\<exists>p1s p2s out p1data p2data.
            run_events se (starts, epochs, ends) = Inr (p1s, p2s, out) \<and>
            pd_concat p1s = Inr p1data \<and> pd_concat p2s = Inr p2data \<and>
            count_list (index se) (epochs ! i) \<le> count_list (index p1data) (epochs ! i) \<and>
            count_list (index se) (epochs ! i) \<le> count_list (index p2data) (epochs ! i))"
proof -
  let ?t0 = "starts ! i" and ?t1 = "epochs ! i" and ?t2 = "ends ! i"
  let ?ph1 = "loc_slice se ?t0 ?t1" and ?ph2 = "loc_slice se ?t1 ?t2"
  let ?sv = "survivors se starts epochs ends"
  let ?p1s = "map (\<lambda>k. normalize_phase (loc_slice se (starts ! k) (epochs ! k))) ?sv"
  let ?p2s = "map (\<lambda>k. normalize_phase (loc_slice se (epochs ! k) (ends ! k))) ?sv"
  let ?out = "map no_data_message (filter (event_skipped se starts epochs ends) [0..<length starts])"
  have i1: "index ?ph1 = filter (\<lambda>t. ?t0 \<le> t \<and> t \<le> ?t1) (index se)"
    using srt by (simp add: index_loc_slice window_sorted)
  have i2: "index ?ph2 = filter (\<lambda>t. ?t1 \<le> t \<and> t \<le> ?t2) (index se)"
    using srt by (simp add: index_loc_slice window_sorted)
  from proc have "window (index se) ?t0 ?t1 \<noteq> []" "window (index se) ?t1 ?t2 \<noteq> []"
    by (auto simp: event_skipped_def df_empty_def index_loc_slice)
  then have ord: "?t0 \<le> ?t1" "?t1 \<le> ?t2"
    using srt by (auto dest: window_nonempty_order)
  have c1: "count_list (index ?ph1) ?t1 = count_list (index se) ?t1"
    using ord by (simp add: i1 count_list_filter)
  have c2: "count_list (index ?ph2) ?t1 = count_list (index se) ?t1"
    using ord by (simp add: i2 count_list_filter)
  have isv: "i \<in> set ?sv" using i proc by (simp add: survivors_def)
  then have m1: "normalize_phase ?ph1 \<in> set ?p1s" and m2: "normalize_phase ?ph2 \<in> set ?p2s"
    by auto
  have ne1: "?p1s \<noteq> []" and ne2: "?p2s \<noteq> []" using isv by auto
  from pd_concat_nonempty [OF ne1] obtain p1data where p1: "pd_concat ?p1s = Inr p1data" ..
  from pd_concat_nonempty [OF ne2] obtain p2data where p2: "pd_concat ?p2s = Inr p2data" ..
  have "index (normalize_phase ?ph1) \<in> index ` set ?p1s" using m1 by (rule imageI)
  then have "index ?ph1 \<in> set (map index ?p1s)"
    by (simp only: index_normalize_phase set_map)
  from count_list_concat [OF this, of ?t1]
  have g1: "count_list (index se) ?t1 \<le> count_list (index p1data) ?t1"
    by (simp add: index_pd_concat [OF p1] c1)
  have "index (normalize_phase ?ph2) \<in> index ` set ?p2s" using m2 by (rule imageI)
  then have "index ?ph2 \<in> set (map index ?p2s)"
    by (simp only: index_normalize_phase set_map)
  from count_list_concat [OF this, of ?t1]
  have g2: "count_list (index se) ?t1 \<le> count_list (index p2data) ?t1"
    by (simp add: index_pd_concat [OF p2] c2)
  have run: "run_events se (starts, epochs, ends) =
          Inr (?p1s, ?p2s, ?out)"
    using lens by (rule run_events_char)
  have ex: "\<exists>p1s p2s out p1data p2data.
            run_events se (starts, epochs, ends) = Inr (p1s, p2s, out) \<and>
            pd_concat p1s = Inr p1data \<and> pd_concat p2s = Inr p2data \<and>
            count_list (index se) ?t1 \<le> count_list (index p1data) ?t1 \<and>
            count_list (index se) ?t1 \<le> count_list (index p2data) ?t1"
    by (rule exI [of _ ?p1s], rule exI [of _ ?p2s], rule exI [of _ ?out], rule exI [of _ p1data],
        rule exI [of _ p2data], intro conjI run p1 p2 g1 g2)
  show ?thesis
    by (intro conjI i1 i2 c1 c2 ex columns_loc_slice [OF srt wf])
qed

theorem phase_windows_closed_witness:
  "index (loc_slice example_frame 0 20) = [0, 10, 20] \<and>
   index (loc_slice example_frame 20 40) = [20, 30, 40] \<and>
   count_list (index (loc_slice example_frame 0 20)) 20 = 1 \<and>
   count_list (index (loc_slice example_frame 20 40)) 20 = 1"
proof -
  have srt: "sorted (index example_frame)" by (simp add: example_frame_def)
  have wf: "\<forall>(n, vs)\<in>set (columns example_frame). length vs = length (index example_frame)"
    by (simp add: example_frame_def)
  have proc: "\<not> event_skipped example_frame [0] [20] [40] 0"
    by (simp add: event_skipped_def slice_eval example_frame_def)
  have idx: "index example_frame = [0, 10, 20, 30, 40]" by (simp add: example_frame_def)
  from phase_windows_closed [OF srt wf _ _ _ proc]
  show ?thesis by (simp add: idx)
qed

subsection \<open>Normalized time of a phase of positive duration\<close>

text \<open>
  Claim C6. On a sorted time index, take any frame that the event loop collected for one
  of the pooled sets and whose first and last timestamps differ. Its column \<open>t_norm\<close> is
  \<open>(elapsed - min elapsed) / (max elapsed - min elapsed)\<close>, row by row, and every one of its
  entries is a finite number between 0 and 1, bounds included.
\<close>

theorem normalized_time_in_unit_interval:
  assumes srt: "sorted (index se)"
      and run: "run_events se (starts, epochs, ends) = Inr (p1s, p2s, out)"
      and f: "f \<in> set p1s \<union> set p2s"
      and nd: "hd (index f) < last (index f)"
  shows "column_of ''t_norm'' f =
           map (\<lambda>e. Fin ((e - Min (set (elapsed f))) /
                         (Max (set (elapsed f)) - Min (set (elapsed f))))) (elapsed f) \<and>
         (\<forall>x\<in>set (column_of ''t_norm'' f). \<exists>q. x = Fin q \<and> 0 \<le> q \<and> q \<le> 1)"
proof -
  from run_events_frames [OF run f] obtain a b where
    fab: "f = normalize_phase (loc_slice se a b)" and ne: "\<not> df_empty (loc_slice se a b)"
    by blast
  let ?ph = "loc_slice se a b"
  have idx: "index f = index ?ph" by (simp add: fab index_normalize_phase)
  have sph: "sorted (index ?ph)" using srt by (simp add: index_loc_slice sorted_window)
  have nph: "index ?ph \<noteq> []" using ne by (simp add: df_empty_def)
  have el: "elapsed f = elapsed ?ph" by (simp add: fab elapsed_normalize_phase)
  have h0: "hd (elapsed ?ph) = 0" using nph by (rule hd_elapsed)
  have lpos: "0 < last (elapsed ?ph)"
    using nd nph by (simp add: idx last_elapsed total_seconds_pos)
  have mn: "Min (set (elapsed ?ph)) = 0" using Min_elapsed [OF sph nph] h0 by simp
  have mx: "Max (set (elapsed ?ph)) = last (elapsed ?ph)" using sph nph by (rule Max_elapsed)
  have col: "column_of ''t_norm'' f = map (\<lambda>e. Fin (e / last (elapsed ?ph))) (elapsed ?ph)"
    using lpos by (simp add: fab t_norm_normalize_phase h0 np_div_def)
  have rng: "0 \<le> e / last (elapsed ?ph) \<and> e / last (elapsed ?ph) \<le> 1"
    if "e \<in> set (elapsed ?ph)" for e
    using elapsed_range [OF sph that] lpos h0 by (simp add: divide_le_eq)
  show ?thesis
    using col rng by (auto simp: el mn mx)
qed

theorem normalized_time_in_unit_interval_witness:
  "column_of ''t_norm'' (normalize_phase (loc_slice tiny_frame 0 10)) = [Fin 0, Fin 1]"
proof -
  have srt: "sorted (index tiny_frame)" by (simp add: tiny_frame_def)
  have sv: "survivors tiny_frame [0] [10] [20] = [0]"
    by (simp add: survivors_def event_skipped_def slice_eval tiny_frame_def)
  have run: "run_events tiny_frame ([0], [10], [20]) =
               Inr ([normalize_phase (loc_slice tiny_frame 0 10)],
                    [normalize_phase (loc_slice tiny_frame 10 20)], [])"
  proof -
    have sk: "\<not> event_skipped tiny_frame [0] [10] [20] 0"
      by (simp add: event_skipped_def slice_eval tiny_frame_def)
    from run_events_char [of "[0]" "[10]" "[20]" tiny_frame]
    show ?thesis by (simp add: sv sk)
  qed
  have idx: "index (loc_slice tiny_frame 0 10) = [0, 10]"
    by (simp add: slice_eval tiny_frame_def)
  have nd: "hd (index (normalize_phase (loc_slice tiny_frame 0 10))) <
            last (index (normalize_phase (loc_slice tiny_frame 0 10)))"
    by (simp add: index_normalize_phase idx)
  have el: "elapsed (normalize_phase (loc_slice tiny_frame 0 10)) = [0, 1 / 100000000]"
    by (simp add: elapsed_def index_normalize_phase idx total_seconds_def)
  from normalized_time_in_unit_interval [OF srt run _ nd]
  show ?thesis by (simp add: el)
qed

subsection \<open>A phase of zero duration\<close>



subsection \<open>No event survives\<close>

text \<open>
  Claim C9. When every event has an empty phase-1 or phase-2 window (the event lists may
  also be empty), \<open>sean\<close> returns no table: it raises, and it does so no later than
  the concatenation of the collected frames. The error is the one of \<^verbatim>\<open>pd.concat\<close> on an
  empty list unless the call had already failed on a zero in \<open>x_dimensions\<close>, on a missing
  column or on event lists of unequal length.
\<close>

theorem sean_no_surviving_event:
  assumes "\<forall>i<length starts. i < length epochs \<longrightarrow> i < length ends \<longrightarrow>
             window (data_index data) (starts ! i) (epochs ! i) = [] \<or>
             window (data_index data) (epochs ! i) (ends ! i) = []"
  shows "sean L data (starts, epochs, ends) xd cols seastats y_col yd rd
           \<in> Inl ` {ZeroDivisionError, KeyError, IndexError, NoObjectsToConcatenate}"
proof (cases "fst xd = 0 \<or> snd xd = 0")
  case True
  then show ?thesis by (simp add: sean_def)
next
  case nz: False
  show ?thesis
  proof (cases "select_data data cols y_col yd")
    case (Inl e)
    then have "e = KeyError" by (rule select_data_error)
    with Inl nz show ?thesis by (simp add: sean_def)
  next
    case (Inr sel)
    obtain se c' y' where sel: "sel = (se, c', y')" by (cases sel)
    from Inr sel have idx: "index se = data_index data" by (simp add: index_select_data)
    have "\<forall>i\<in>set [0..<length starts]. i < length epochs \<longrightarrow> i < length ends \<longrightarrow>
            event_skipped se starts epochs ends i"
      using assms by (auto simp: event_skipped_def df_empty_def index_loc_slice idx)
    from event_loop_all_skipped [OF this, of "[]" "[]" "[]"]
    have "run_events se (starts, epochs, ends) = Inl IndexError \<or>
          (\<exists>out'. run_events se (starts, epochs, ends) = Inr ([], [], out'))"
      by (simp add: run_events_def)
    then show ?thesis
      using Inr sel nz by (auto simp: sean_def assemble_no_frames)
  qed
qed

theorem sean_no_surviving_event_witness:
  "sean np_exact (DataFrame example_frame) ([50], [60], [70]) (3, 3) ColsFalse StatsFalse
     None None False
     \<in> Inl ` {ZeroDivisionError, KeyError, IndexError, NoObjectsToConcatenate}"
  by (rule sean_no_surviving_event)
     (simp add: window_def data_index_def example_frame_def bisect_left_def bisect_right_def)

subsection \<open>A statistics argument that is no dictionary\<close>



subsection \<open>The number of rows\<close>

text \<open>
  Claim C3. Whenever \<open>sean\<close> returns for \<open>x_dimensions = [x1, x2]\<close>, both numbers are at
  least 2 and the table has exactly \<open>(x1 - 1) + (x2 - 1)\<close> rows: its index has that
  length, and so has every column. \<open>x_dimensions\<close> counts edges, and each phase has one bin
  fewer than edges.
\<close>

theorem result_row_count:
  assumes "sean L data events (x1, x2) cols seastats y_col yd rd = Inr r"
  shows "2 \<le> x1 \<and> 2 \<le> x2 \<and>
         int (length (t_index (SEAdat r))) = (x1 - 1) + (x2 - 1) \<and>
         (\<forall>(n, v)\<in>set (t_columns (SEAdat r)). int (length v) = (x1 - 1) + (x2 - 1))"
proof -
  from assms obtain se cols' y' p1s p2s out where
    asm: "assemble L (x1, x2) cols' (resolve_stats L seastats) y' yd rd p1s p2s out = Inr r"
    by (rule sean_Inr)
  from asm obtain p1data p2data x1e x2e sea2d ax tbl where
    bg: "bin_grid (x1, x2) y' yd = Inr (x1e, x2e, sea2d, ax)" and
    ft: "fill_table L p1data p2data (cols_items cols') (resolve_stats L seastats) x1e x2e sea2d ax = Inr tbl" and
    sd: "SEAdat r = set_index ''t_norm'' tbl"
    by (rule assemble_Inr)
  from grid_lengths [OF bg] have
    l1: "length x1e = nat x1" and l2: "length x2e = nat x2" and x1: "2 \<le> x1" and
    lax: "length ax = (length x1e - 1) + (length x2e - 1)"
    by simp_all
  from fill_table_valid [OF ft resolve_stats_nonempty] have "2 \<le> length x2e"
    by (simp add: valid_edges_def)
  with l2 have x2: "2 \<le> x2" by simp
  from fill_table_lengths [OF ft lax] have
    "(\<forall>(n, v)\<in>set tbl. length v = length ax)" "''t_norm'' \<in> fst ` set tbl" by simp_all
  from set_index_lengths [OF this] have
    "length (t_index (SEAdat r)) = length ax"
    "\<forall>(n, v)\<in>set (t_columns (SEAdat r)). length v = length ax"
    by (simp_all add: sd)
  moreover have "int (length ax) = (x1 - 1) + (x2 - 1)"
    using lax l1 l2 x1 x2 by simp
  ultimately show ?thesis using x1 x2 by auto
qed

theorem result_row_count_witness:
  "\<exists>r. sean np_exact (DataFrame tiny_frame) ([0], [10], [20]) (2, 2) ColsFalse count_only
          None None False = Inr r \<and>
       int (length (t_index (SEAdat r))) = 2"
proof -
  from tiny_run_returns obtain r where
    r: "sean np_exact (DataFrame tiny_frame) ([0], [10], [20]) (2, 2) ColsFalse count_only
          None None False = Inr r"
    by (cases "sean np_exact (DataFrame tiny_frame) ([0], [10], [20]) (2, 2) ColsFalse count_only
          None None False") auto
  from result_row_count [OF r] have "int (length (t_index (SEAdat r))) = 2" by simp
  with r show ?thesis by blast
qed

subsection \<open>The index of the result\<close>




subsection \<open>1D or 2D\<close>




subsection \<open>The positions on the time axis\<close>

text \<open>
  Claim C1. The time axis is computed by the two formulas of lines 262--263, but it does
  not consist of integers: for \<open>x_dimensions = [3, 3]\<close> the index of the result is
  \<open>-5/2, -1, 0, 3/2\<close>. The bins are those of \<^verbatim>\<open>linspace(0, 1, n)\<close>, of width
  \<open>1 / (n - 1)\<close>, while the spacing that divides them is \<open>1 / n\<close>.
\<close>

theorem time_axis_three_edges:
  "map_sum id (\<lambda>r. t_index (SEAdat r))
     (sean np_exact (DataFrame tiny_frame) ([0], [10], [20]) (3, 3) ColsFalse count_only
        None None False) =
   Inr [Fin (- 5 / 2), Fin (- 1), Fin 0, Fin (3 / 2)] \<and>
   of_int \<lfloor>- 5 / 2 :: rat\<rfloor> \<noteq> (- 5 / 2 :: rat) \<and>
   of_int \<lfloor>3 / 2 :: rat\<rfloor> \<noteq> (3 / 2 :: rat)"
  by code_simp

end
